theory Spec2Isabelle
  imports Main "HOL-Library.Sublist"
begin

section \<open>Theme preference (App, src/src/App.js lines 38-71)\<close>

text \<open>
  \<^verbatim>\<open>const [isDarkMode, setIsDarkMode] = useState(() => {
       const savedMode = localStorage.getItem('theme');
       return savedMode === 'dark'; });\<close>
  The persistent store is reduced to the one key the program uses: \<open>None\<close> is the
  \<^verbatim>\<open>null\<close> that \<^verbatim>\<open>getItem\<close> returns for an absent key. \<open>reads\<close> counts the calls of
  \<^verbatim>\<open>getItem\<close>; \<open>classDark\<close> is the \<^verbatim>\<open>dark\<close> class of the document element.
\<close>

record theme_state =
  isDarkMode :: bool
  storage :: "string option"
  reads :: nat
  classDark :: bool

text \<open>The effect on \<^verbatim>\<open>[isDarkMode]\<close>: it runs after the first render and after every
  render in which \<^verbatim>\<open>isDarkMode\<close> has changed.\<close>

definition theme_effect :: "theme_state \<Rightarrow> theme_state" where
  "theme_effect s =
     (if isDarkMode s then s\<lparr>classDark := True, storage := Some ''dark''\<rparr>
      else s\<lparr>classDark := False, storage := Some ''light''\<rparr>)"

text \<open>Mounting \<^verbatim>\<open>App\<close>: the lazy initialiser of \<^verbatim>\<open>useState\<close> reads the store, then the
  effect runs. The arguments are the stored value and the class the document has.\<close>

definition App_mount :: "string option \<Rightarrow> bool \<Rightarrow> theme_state" where
  "App_mount stored cls =
     theme_effect \<lparr>isDarkMode = (stored = Some ''dark''), storage = stored,
                   reads = 1, classDark = cls\<rparr>"

text \<open>\<^verbatim>\<open>toggleDarkMode = () => setIsDarkMode((prevMode) => !prevMode)\<close>, followed by the
  effect of the render it causes.\<close>

definition toggleDarkMode :: "theme_state \<Rightarrow> theme_state" where
  "toggleDarkMode s = theme_effect (s\<lparr>isDarkMode := \<not> isDarkMode s\<rparr>)"

section \<open>Lead-capture form (App and PlanSelectionModal, src/src/App.js)\<close>

record form_data =
  name :: string
  email :: string
  mobile :: string
  plan :: string

text \<open>The body of the POST request: \<^verbatim>\<open>{userEmail, name, mobile, plan}\<close>.\<close>

record payload =
  p_userEmail :: string
  p_name :: string
  p_mobile :: string
  p_plan :: string

text \<open>What the promise of \<^verbatim>\<open>fetch\<close> settles to: a response with its HTTP status, or
  a rejection (transport error).\<close>

datatype response = Http nat | TransportError

definition response_ok :: "nat \<Rightarrow> bool" where
  "response_ok st = (200 \<le> st \<and> st \<le> 299)"

text \<open>A plan object of the pricing table; the form uses its name only.\<close>

record plan_obj =
  plan_name :: string

record form_state =
  isModalOpen :: bool
  selectedPlan :: "plan_obj option"
  formData :: form_data
  isSubmitting :: bool
  submitSuccess :: string
  requests :: "payload list"

definition empty_form :: form_data where
  "empty_form = \<lparr>name = '''', email = '''', mobile = '''', plan = ''''\<rparr>"


text \<open>\<^verbatim>\<open>handleFormSubmit\<close> up to the call of \<^verbatim>\<open>fetch\<close>: the request issued is appended to
  \<open>requests\<close>.\<close>

definition handleFormSubmit :: "form_state \<Rightarrow> form_state" where
  "handleFormSubmit s =
     s\<lparr>isSubmitting := True,
       submitSuccess := '''',
       requests := requests s @
         [\<lparr>p_userEmail = email (formData s), p_name = name (formData s),
           p_mobile = mobile (formData s), p_plan = plan (formData s)\<rparr>]\<rparr>"

text \<open>The \<^verbatim>\<open>.then\<close>, \<^verbatim>\<open>.catch\<close> and \<^verbatim>\<open>.finally\<close> handlers of that promise.\<close>

definition form_then :: "nat \<Rightarrow> form_state \<Rightarrow> form_state" where
  "form_then st s =
     (if response_ok st
      then s\<lparr>submitSuccess := ''Thank you! Your request has been submitted.'',
             formData := empty_form,
             selectedPlan := None\<rparr>
      else s\<lparr>submitSuccess := ''Failed to submit. Please try again.''\<rparr>)"

definition form_catch :: "form_state \<Rightarrow> form_state" where
  "form_catch s = s\<lparr>submitSuccess := ''An error occurred. Please try again later.''\<rparr>"

definition form_finally :: "form_state \<Rightarrow> form_state" where
  "form_finally s = s\<lparr>isSubmitting := False\<rparr>"

definition form_settle :: "response \<Rightarrow> form_state \<Rightarrow> form_state" where
  "form_settle r s =
     form_finally (case r of Http st \<Rightarrow> form_then st s | TransportError \<Rightarrow> form_catch s)"



definition failed :: "response \<Rightarrow> bool" where
  "failed r = (case r of Http st \<Rightarrow> \<not> response_ok st | TransportError \<Rightarrow> True)"


text \<open>A form as filled in, with the modal open.\<close>

definition form_example :: form_state where
  "form_example =
     \<lparr>isModalOpen = True, selectedPlan = Some \<lparr>plan_name = ''Pro''\<rparr>,
      formData = \<lparr>name = ''Ann'', email = ''ann@example.org'', mobile = ''555'', plan = ''Pro''\<rparr>,
      isSubmitting = False, submitSuccess = '''', requests = []\<rparr>"









section \<open>Hero section (HeroSection, src/unnamed/part_000 lines 171-208)\<close>

text \<open>The calls the handler makes, in order: the state setters and \<^verbatim>\<open>fetch\<close> (with the
  \<^verbatim>\<open>userEmail\<close> of its payload).\<close>

datatype hero_call = SetStatus string | SetIsLoading bool | SetEmail string | Fetch string

record hero_state =
  h_email :: string
  h_status :: string
  h_isLoading :: bool
  h_calls :: "hero_call list"

definition setStatus :: "string \<Rightarrow> hero_state \<Rightarrow> hero_state" where
  "setStatus v s = s\<lparr>h_status := v, h_calls := h_calls s @ [SetStatus v]\<rparr>"

definition setIsLoading :: "bool \<Rightarrow> hero_state \<Rightarrow> hero_state" where
  "setIsLoading v s = s\<lparr>h_isLoading := v, h_calls := h_calls s @ [SetIsLoading v]\<rparr>"

definition setEmail :: "string \<Rightarrow> hero_state \<Rightarrow> hero_state" where
  "setEmail v s = s\<lparr>h_email := v, h_calls := h_calls s @ [SetEmail v]\<rparr>"

definition fetch :: "string \<Rightarrow> hero_state \<Rightarrow> hero_state" where
  "fetch userEmail s = s\<lparr>h_calls := h_calls s @ [Fetch userEmail]\<rparr>"

text \<open>\<^verbatim>\<open>if (!email) { setStatus('Please enter your email address.'); return; }\<close>:
  \<^verbatim>\<open>email\<close> is a string, so \<^verbatim>\<open>!email\<close> holds exactly for the empty string.\<close>

definition handleContactUs :: "hero_state \<Rightarrow> hero_state" where
  "handleContactUs s =
     (if h_email s = '''' then setStatus ''Please enter your email address.'' s
      else fetch (h_email s) (setIsLoading True s))"

text \<open>The handlers of the promise. A response that is not ok has its body parsed with
  \<^verbatim>\<open>await response.json()\<close>; when that fails the \<^verbatim>\<open>.catch\<close> handler runs instead
  (\<open>HeroHttp st parses\<close>).\<close>

datatype hero_response = HeroHttp nat bool | HeroTransportError

definition hero_settle :: "hero_response \<Rightarrow> hero_state \<Rightarrow> hero_state" where
  "hero_settle r s =
     setIsLoading False
       (case r of
          HeroHttp st parses \<Rightarrow>
            if response_ok st then setEmail '''' (setStatus ''Message sent successfully!'' s)
            else if parses then setStatus ''Failed to send message. Please try again.'' s
            else setStatus ''An error occurred. Please try again later.'' s
        | HeroTransportError \<Rightarrow> setStatus ''An error occurred. Please try again later.'' s)"

section \<open>Visibility trigger, top-level hook (useIntersectionObserver, src/src/App.js lines 7-35)\<close>

text \<open>
  One instance of the hook: the state \<^verbatim>\<open>isVisible\<close>, whether \<^verbatim>\<open>targetRef.current\<close> holds an
  element (\<open>w_bound\<close>), and whether the observer made by the last run of the effect is
  observing it (\<open>w_observing\<close>). An observer delivers entries only while it observes.
\<close>

record watcher =
  w_isVisible :: bool
  w_bound :: bool
  w_observing :: bool

text \<open>The observer's callback: \<^verbatim>\<open>entries.forEach((entry) => { if (entry.isIntersecting)
  { setIsVisible(true); observer.disconnect(); } })\<close>. An entry is its \<^verbatim>\<open>isIntersecting\<close>.\<close>

definition observer_callback :: "bool list \<Rightarrow> watcher \<Rightarrow> watcher" where
  "observer_callback entries w =
     fold (\<lambda>isIntersecting w.
             if isIntersecting then w\<lparr>w_isVisible := True, w_observing := False\<rparr> else w)
          entries w"

datatype watch_event =
    Entries "bool list"   \<comment> \<open>the browser reports intersection changes\<close>
  | Options_changed       \<comment> \<open>a render with another \<^verbatim>\<open>options\<close> object: cleanup, then the effect\<close>
  | Watcher_unmount       \<comment> \<open>the cleanup alone\<close>

definition watch_step :: "watch_event \<Rightarrow> watcher \<Rightarrow> watcher" where
  "watch_step e w =
     (case e of
        Entries entries \<Rightarrow> if w_observing w then observer_callback entries w else w
      | Options_changed \<Rightarrow> w\<lparr>w_observing := w_bound w\<rparr>
      | Watcher_unmount \<Rightarrow> w\<lparr>w_observing := False\<rparr>)"

definition watcher_mount :: "bool \<Rightarrow> watcher" where
  "watcher_mount bound = \<lparr>w_isVisible = False, w_bound = bound, w_observing = bound\<rparr>"

text \<open>The values of \<^verbatim>\<open>isVisible\<close> the hook returns: at the start and after each event.\<close>

fun visible_trace :: "watch_event list \<Rightarrow> watcher \<Rightarrow> bool list" where
  "visible_trace [] w = [w_isVisible w]"
| "visible_trace (e # es) w = w_isVisible w # visible_trace es (watch_step e w)"

text \<open>The number of steps from false to true, and from true to false, in a list of
  successive values.\<close>

fun rises :: "bool list \<Rightarrow> nat" where
  "rises (a # b # bs) = (if \<not> a \<and> b then 1 else 0) + rises (b # bs)"
| "rises _ = 0"

fun falls :: "bool list \<Rightarrow> nat" where
  "falls (a # b # bs) = (if a \<and> \<not> b then 1 else 0) + falls (b # bs)"
| "falls _ = 0"

section \<open>Chat playback (ComparisonSection, src/unnamed/part_000 lines 577-676)\<close>

record message =
  msg_type :: string
  msg_text :: string

text \<open>The functions that \<^verbatim>\<open>setTimeout\<close> is given. \<open>Settle\<close> is the arrow function of the
  effect; \<open>ShowNextMessage r\<close> is \<^verbatim>\<open>showNextMessage\<close> of the \<open>r\<close>-th call of
  \<^verbatim>\<open>startChatAnimation\<close>; \<open>RevealAi r msg\<close> and \<open>RevealCustomer r msg\<close> are the arrow
  functions of its two branches, which hold \<^verbatim>\<open>msg\<close>.\<close>

datatype callback =
    Settle
  | ShowNextMessage nat
  | RevealAi nat message
  | RevealCustomer nat message

record timer =
  tid :: nat
  due :: nat
  cb :: callback

text \<open>The variables \<^verbatim>\<open>index\<close> and \<^verbatim>\<open>isCancelled\<close> that one call of
  \<^verbatim>\<open>startChatAnimation\<close> declares and its callbacks share.\<close>

record anim =
  index :: nat
  isCancelled :: bool

text \<open>The calls made on the component's state, recorded with the time of the call.\<close>

datatype call =
    ResetVisibleMessages             \<comment> \<open>\<^verbatim>\<open>setVisibleMessages([])\<close>\<close>
  | AppendVisibleMessage message     \<comment> \<open>\<^verbatim>\<open>setVisibleMessages((prev) => [...prev, msg])\<close>\<close>
  | SetTypingIndex int
  | StartChatAnimation
  | EnterShowNextMessage nat         \<comment> \<open>\<^verbatim>\<open>showNextMessage\<close> is entered, with the value of \<^verbatim>\<open>index\<close>\<close>

text \<open>
  The state of one instance: the module constant \<^verbatim>\<open>messages\<close> (\<open>script\<close>), the two state
  variables, the ref \<^verbatim>\<open>hasBeenVisibleRef\<close>, the state \<^verbatim>\<open>entry\<close> of the nested hook (the
  \<^verbatim>\<open>isIntersecting\<close> of the stored entry, \<open>None\<close> for \<^verbatim>\<open>null\<close> and \<^verbatim>\<open>undefined\<close>), whether
  its observer observes the section, the variable \<^verbatim>\<open>timeout\<close> of the last run of the
  effect, the browser's pending timers in the order they were set, the store of the
  variables of the calls of \<^verbatim>\<open>startChatAnimation\<close>, and the clock in milliseconds.
  React drops a state update of a component that is not mounted; the call is recorded
  all the same.
\<close>

record comparison =
  script :: "message list"
  visibleMessages :: "message list"
  typingIndex :: int
  hasBeenVisibleRef :: bool
  entry :: "bool option"
  observing :: bool
  mounted :: bool
  effect_timeout :: "nat option"
  timers :: "timer list"
  next_id :: nat
  anims :: "nat \<Rightarrow> anim"
  next_anim :: nat
  now :: nat
  calls :: "(nat \<times> call) list"

definition record_call :: "call \<Rightarrow> comparison \<Rightarrow> comparison" where
  "record_call c s = s\<lparr>calls := calls s @ [(now s, c)]\<rparr>"

definition setVisibleMessages_empty :: "comparison \<Rightarrow> comparison" where
  "setVisibleMessages_empty s =
     record_call ResetVisibleMessages (if mounted s then s\<lparr>visibleMessages := []\<rparr> else s)"

definition setVisibleMessages_append :: "message \<Rightarrow> comparison \<Rightarrow> comparison" where
  "setVisibleMessages_append msg s =
     record_call (AppendVisibleMessage msg)
       (if mounted s then s\<lparr>visibleMessages := visibleMessages s @ [msg]\<rparr> else s)"

definition setTypingIndex :: "int \<Rightarrow> comparison \<Rightarrow> comparison" where
  "setTypingIndex i s =
     record_call (SetTypingIndex i) (if mounted s then s\<lparr>typingIndex := i\<rparr> else s)"

text \<open>\<^verbatim>\<open>setTimeout(f, delay)\<close> returns the identifier \<open>next_id s\<close>.\<close>

definition setTimeout :: "callback \<Rightarrow> nat \<Rightarrow> comparison \<Rightarrow> comparison" where
  "setTimeout f delay s =
     s\<lparr>timers := timers s @ [\<lparr>tid = next_id s, due = now s + delay, cb = f\<rparr>],
       next_id := Suc (next_id s)\<rparr>"

text \<open>\<^verbatim>\<open>clearTimeout(id)\<close>; \<open>None\<close> is \<^verbatim>\<open>undefined\<close>, for which it does nothing.\<close>

definition clearTimeout :: "nat option \<Rightarrow> comparison \<Rightarrow> comparison" where
  "clearTimeout h s =
     (case h of None \<Rightarrow> s
      | Some i \<Rightarrow> s\<lparr>timers := filter (\<lambda>t. tid t \<noteq> i) (timers s)\<rparr>)"

text \<open>The hook's second result: \<^verbatim>\<open>entry?.isIntersecting || false\<close>.\<close>

definition comparisonVisible :: "comparison \<Rightarrow> bool" where
  "comparisonVisible s = (case entry s of None \<Rightarrow> False | Some isIntersecting \<Rightarrow> isIntersecting)"

definition increment_index :: "nat \<Rightarrow> comparison \<Rightarrow> comparison" where
  "increment_index r s =
     s\<lparr>anims := (anims s)(r := (anims s r)\<lparr>index := Suc (index (anims s r))\<rparr>)\<rparr>"

definition showNextMessage :: "nat \<Rightarrow> comparison \<Rightarrow> comparison" where
  "showNextMessage r s0 =
     (let s = record_call (EnterShowNextMessage (index (anims s0 r))) s0 in
      if isCancelled (anims s r) \<or> index (anims s r) \<ge> length (script s) then s
      else
        let msg = script s ! index (anims s r) in
        if msg_type msg = ''ai''
        then setTimeout (RevealAi r msg) 700 (setTypingIndex (int (index (anims s r))) s)
        else setTimeout (RevealCustomer r msg) 500 s)"

definition revealAi :: "nat \<Rightarrow> message \<Rightarrow> comparison \<Rightarrow> comparison" where
  "revealAi r msg s =
     (if isCancelled (anims s r) then s
      else setTimeout (ShowNextMessage r) 700
             (increment_index r (setTypingIndex (- 1) (setVisibleMessages_append msg s))))"

definition revealCustomer :: "nat \<Rightarrow> message \<Rightarrow> comparison \<Rightarrow> comparison" where
  "revealCustomer r msg s =
     (if isCancelled (anims s r) then s
      else setTimeout (ShowNextMessage r) 700
             (increment_index r (setVisibleMessages_append msg s)))"

text \<open>\<^verbatim>\<open>startChatAnimation\<close>: fresh variables \<^verbatim>\<open>index = 0\<close>, \<^verbatim>\<open>isCancelled = false\<close>, and
  \<^verbatim>\<open>initTimeout = setTimeout(showNextMessage, 300)\<close>.\<close>

definition startChatAnimation :: "comparison \<Rightarrow> comparison" where
  "startChatAnimation s0 =
     (let s = record_call StartChatAnimation s0; r = next_anim s in
      setTimeout (ShowNextMessage r) 300
        (s\<lparr>anims := (anims s)(r := \<lparr>index = 0, isCancelled = False\<rparr>), next_anim := Suc r\<rparr>))"

text \<open>The function that \<^verbatim>\<open>startChatAnimation\<close> returns, for the call \<open>r\<close> whose
  \<^verbatim>\<open>initTimeout\<close> is \<open>i\<close>. The effect below drops that result, so nothing calls it.\<close>

definition cancelChatAnimation :: "nat \<Rightarrow> nat \<Rightarrow> comparison \<Rightarrow> comparison" where
  "cancelChatAnimation r i s =
     clearTimeout (Some i) (s\<lparr>anims := (anims s)(r := (anims s r)\<lparr>isCancelled := True\<rparr>)\<rparr>)"

definition settle_callback :: "comparison \<Rightarrow> comparison" where
  "settle_callback s = startChatAnimation (setTypingIndex (- 1) (setVisibleMessages_empty s))"

definition run_callback :: "callback \<Rightarrow> comparison \<Rightarrow> comparison" where
  "run_callback f s =
     (case f of
        Settle \<Rightarrow> settle_callback s
      | ShowNextMessage r \<Rightarrow> showNextMessage r s
      | RevealAi r msg \<Rightarrow> revealAi r msg s
      | RevealCustomer r msg \<Rightarrow> revealCustomer r msg s)"

text \<open>The effect on \<^verbatim>\<open>[comparisonVisible]\<close> and its cleanup \<^verbatim>\<open>() => clearTimeout(timeout)\<close>.\<close>

definition visibility_effect :: "comparison \<Rightarrow> comparison" where
  "visibility_effect s =
     (if comparisonVisible s \<and> \<not> hasBeenVisibleRef s
      then (setTimeout Settle 1000 (s\<lparr>hasBeenVisibleRef := True\<rparr>))
             \<lparr>effect_timeout := Some (next_id s)\<rparr>
      else if \<not> comparisonVisible s \<and> hasBeenVisibleRef s
      then s\<lparr>hasBeenVisibleRef := False, effect_timeout := None\<rparr>
      else s\<lparr>effect_timeout := None\<rparr>)"

definition effect_cleanup :: "comparison \<Rightarrow> comparison" where
  "effect_cleanup s = clearTimeout (effect_timeout s) s"

text \<open>
  The observer's callback \<^verbatim>\<open>([entry]) => setEntry(entry)\<close> and the render that follows: when
  \<^verbatim>\<open>comparisonVisible\<close> has changed, the cleanup of the last effect runs, then the effect.
\<close>

definition intersect :: "bool list \<Rightarrow> comparison \<Rightarrow> comparison" where
  "intersect entries s =
     (if \<not> observing s then s
      else
        let s1 = s\<lparr>entry := (case entries of [] \<Rightarrow> None | e # _ \<Rightarrow> Some e)\<rparr> in
        if comparisonVisible s1 = comparisonVisible s then s1
        else visibility_effect (effect_cleanup s1))"

text \<open>Unmounting: the ref callback is called with \<^verbatim>\<open>null\<close> (the observer is disconnected
  and the new one observes nothing) and the cleanup of the effect runs.\<close>

definition unmount :: "comparison \<Rightarrow> comparison" where
  "unmount s =
     (if mounted s then (effect_cleanup s)\<lparr>mounted := False, observing := False\<rparr> else s)"

text \<open>The pending timers that are due, in the order they were set.\<close>

definition due_timers :: "comparison \<Rightarrow> timer list" where
  "due_timers s = filter (\<lambda>t. due t \<le> now s) (timers s)"

text \<open>The event loop at one instant: while a pending timer is due, the first of them
  leaves the list and its callback runs. It ends, since no callback sets a timer with
  delay 0.\<close>

function fire_due :: "comparison \<Rightarrow> comparison" where
  "fire_due s =
     (case due_timers s of
        [] \<Rightarrow> s
      | t # _ \<Rightarrow> fire_due (run_callback (cb t) (s\<lparr>timers := remove1 t (timers s)\<rparr>)))"
  by pat_completeness auto
termination
proof (relation "measure (\<lambda>s. length (due_timers s))")
  show "wf (measure (\<lambda>s. length (due_timers s)))"
    by simp
next
  fix s t ts
  assume a: "due_timers s = t # ts"
  have same: "due_timers (run_callback f x) = due_timers x" for f x
    by (cases f)
       (simp_all add: run_callback_def settle_callback_def startChatAnimation_def
          showNextMessage_def revealAi_def revealCustomer_def setTimeout_def
          setTypingIndex_def setVisibleMessages_empty_def setVisibleMessages_append_def
          increment_index_def record_call_def due_timers_def Let_def)
  have fewer: "length (filter P (remove1 t xs)) < length (filter P xs)"
    if "t \<in> set xs" "P t" for P and xs :: "timer list"
    using that by (induction xs) (auto simp: less_Suc_eq_le)
  have "t \<in> set (filter (\<lambda>t. due t \<le> now s) (timers s))"
    using a by (simp add: due_timers_def)
  then have "t \<in> set (timers s)" and "due t \<le> now s"
    by simp_all
  then have "length (due_timers (s\<lparr>timers := remove1 t (timers s)\<rparr>)) < length (due_timers s)"
    using fewer [of "timers s" "\<lambda>t. due t \<le> now s"] by (simp add: due_timers_def)
  then show "(run_callback (cb t) (s\<lparr>timers := remove1 t (timers s)\<rparr>), s)
               \<in> measure (\<lambda>s. length (due_timers s))"
    by (simp only: in_measure same)
qed

declare fire_due.simps [simp del]

text \<open>One millisecond passes.\<close>

definition tick :: "comparison \<Rightarrow> comparison" where
  "tick s = fire_due (s\<lparr>now := Suc (now s)\<rparr>)"

primrec elapse :: "nat \<Rightarrow> comparison \<Rightarrow> comparison" where
  "elapse 0 s = s"
| "elapse (Suc d) s = elapse d (tick s)"

text \<open>The instance as mounted at time \<open>t0\<close>: the ref callback has made the observer observe
  the section, and the first run of the effect finds \<^verbatim>\<open>comparisonVisible\<close> false and the
  ref false, and sets no timer.\<close>

definition mount :: "message list \<Rightarrow> nat \<Rightarrow> comparison" where
  "mount S t0 =
     \<lparr>script = S, visibleMessages = [], typingIndex = - 1, hasBeenVisibleRef = False,
      entry = None, observing = True, mounted = True, effect_timeout = None,
      timers = [], next_id = 0, anims = (\<lambda>_. \<lparr>index = 0, isCancelled = False\<rparr>),
      next_anim = 0, now = t0, calls = []\<rparr>"




text \<open>How many times \<^verbatim>\<open>startChatAnimation\<close> has been called.\<close>

definition activations :: "comparison \<Rightarrow> nat" where
  "activations s = length (filter (\<lambda>c. snd c = StartChatAnimation) (calls s))"

text \<open>The constant \<^verbatim>\<open>messages\<close> of the module. The two dashes of the last text are written
  as the three bytes of their UTF-8 form.\<close>

definition messages :: "message list" where
  \<open>messages =
    [\<lparr>msg_type = ''ai'', msg_text = ''Hello! How can I assist you today?''\<rparr>,
     \<lparr>msg_type = ''customer'', msg_text = ''How do I create a Return Request?''\<rparr>,
     \<lparr>msg_type = ''ai'', msg_text = ''You can create a Return in three simple steps: 1) Tap on MyOrders 2) Choose the item to be Returned 3) Enter details requested and create a return request''\<rparr>,
     \<lparr>msg_type = ''customer'', msg_text = ''Where should I self-ship the Returns?''\<rparr>,
     \<lparr>msg_type = ''ai'', msg_text = ''You can send the return to any one of the following returns processing facilities listed below. Please ensure that you specify the name of the seller you purchased the products from (You can find the seller name on your order invoice) and dispatch the package to the address listed below. Kindly do not send it to any other address as the return package would not be treated as accepted."''\<rparr>,
     \<lparr>msg_type = ''customer'', msg_text = ''I have created a Return request. When will I get the refund''\<rparr>,
     \<lparr>msg_type = ''ai'', msg_text = ''Refund will be initiated upon successful pickup as per the Returns Policy. The refund amount is expected to reflect in the customer account within the following timelines: NEFT - 1 to 3 business days post refund initiation, Cyntra Credit - Instant, Online Refund '' @ [CHR 0xE2, CHR 0x80, CHR 0x93] @ '' 7 to 10 days post refund initiation, depending on your bank partner, '' @ [CHR 0x27] @ ''PhonePe wallet'' @ [CHR 0x27] @ '' '' @ [CHR 0xE2, CHR 0x80, CHR 0x93] @ '' Instant''\<rparr>]\<close>


subsection \<open>The timed steps as the specification words them\<close>







subsection \<open>Predicates on states used in the proofs\<close>

text \<open>The only pending timer is \<^verbatim>\<open>showNextMessage\<close> of run \<open>r\<close>, due at \<open>T\<close>, and that run is
  at index \<open>i\<close>.\<close>

definition awaiting :: "nat \<Rightarrow> nat \<Rightarrow> nat \<Rightarrow> comparison \<Rightarrow> bool" where
  "awaiting r i T s \<longleftrightarrow>
     mounted s \<and> (\<exists>k. timers s = [\<lparr>tid = k, due = T, cb = ShowNextMessage r\<rparr>]) \<and> now s < T
     \<and> anims s r = \<lparr>index = i, isCancelled = False\<rparr> \<and> typingIndex s = - 1"

text \<open>The instance mounted at \<open>t0\<close> and seen at once: the state when the settle timer has
  fired, 1000 ms later.\<close>

definition activated :: "message list \<Rightarrow> nat \<Rightarrow> comparison" where
  "activated S t0 =
     run_callback Settle ((intersect [True] (mount S t0))\<lparr>now := t0 + 1000, timers := []\<rparr>)"















section \<open>Theorems: theme, form, hero\<close>

lemma theme_effect_store:
  "storage (theme_effect s) = Some (if isDarkMode s then ''dark'' else ''light'')"
  "isDarkMode (theme_effect s) = isDarkMode s"
  "reads (theme_effect s) = reads s"
  by (simp_all add: theme_effect_def)

lemma toggles_store:
  "storage ((toggleDarkMode ^^ Suc n) s) =
     Some (if isDarkMode ((toggleDarkMode ^^ Suc n) s) then ''dark'' else ''light'')"
  by (simp add: toggleDarkMode_def theme_effect_store)

lemma toggles_reads: "reads ((toggleDarkMode ^^ n) s) = reads s"
  by (induction n) (simp_all add: toggleDarkMode_def theme_effect_store)

lemma toggles_mode: "isDarkMode ((toggleDarkMode ^^ n) s) = (if even n then isDarkMode s else \<not> isDarkMode s)"
  by (induction n) (simp_all add: toggleDarkMode_def theme_effect_store)

text \<open>
  Claim C8. The theme flag is read from the store once, when \<^verbatim>\<open>App\<close> mounts, and never
  again by a toggle; the mode it starts in is dark exactly when the stored value is the
  string \<^verbatim>\<open>dark\<close> (an absent key and every other string give light); and after every
  toggle, the stored value is \<^verbatim>\<open>dark\<close> when dark mode is on and \<^verbatim>\<open>light\<close> when it is off.
\<close>

theorem C8_theme_flag:
  "reads ((toggleDarkMode ^^ n) (App_mount stored cls)) = 1
   \<and> isDarkMode (App_mount stored cls) = (stored = Some ''dark'')
   \<and> storage ((toggleDarkMode ^^ Suc n) (App_mount stored cls)) =
       Some (if isDarkMode ((toggleDarkMode ^^ Suc n) (App_mount stored cls))
             then ''dark'' else ''light'')
   \<and> isDarkMode ((toggleDarkMode ^^ Suc n) (App_mount stored cls)) =
       (\<not> isDarkMode ((toggleDarkMode ^^ n) (App_mount stored cls)))"
proof -
  have r: "reads (App_mount stored cls) = 1"
    by (simp add: App_mount_def theme_effect_store)
  have m: "isDarkMode (App_mount stored cls) = (stored = Some ''dark'')"
    by (simp add: App_mount_def theme_effect_store)
  have t: "isDarkMode ((toggleDarkMode ^^ Suc n) (App_mount stored cls)) =
       (\<not> isDarkMode ((toggleDarkMode ^^ n) (App_mount stored cls)))"
    by (simp add: toggleDarkMode_def theme_effect_store)
  show ?thesis
    using r m t toggles_store [of n "App_mount stored cls"]
    by (simp only: toggles_reads)
qed

theorem C8_theme_flag_witness:
  "reads ((toggleDarkMode ^^ 2) (App_mount (Some ''blue'') True)) = 1
   \<and> \<not> isDarkMode (App_mount (Some ''blue'') True)
   \<and> \<not> isDarkMode (App_mount None True)
   \<and> storage ((toggleDarkMode ^^ 1) (App_mount None True)) = Some ''dark''
   \<and> storage ((toggleDarkMode ^^ 2) (App_mount (Some ''blue'') True)) = Some ''light''"
  using C8_theme_flag [of 1 "Some ''blue''" True] C8_theme_flag [of 0 None True]
  by (simp add: numeral_2_eq_2 toggleDarkMode_def theme_effect_def App_mount_def)







text \<open>
  Claim C10. \<^verbatim>\<open>handleFormSubmit\<close> itself leaves \<^verbatim>\<open>formData\<close> and \<^verbatim>\<open>selectedPlan\<close> as they
  are; when the request settles with a 2xx status both are cleared; when it settles with
  any other status or with a transport error both are what they were.
\<close>

theorem C10_form_cleared_only_on_success:
  "formData (handleFormSubmit s) = formData s
   \<and> selectedPlan (handleFormSubmit s) = selectedPlan s
   \<and> (response_ok st \<longrightarrow>
        formData (form_settle (Http st) s) = \<lparr>name = '''', email = '''', mobile = '''', plan = ''''\<rparr>
        \<and> selectedPlan (form_settle (Http st) s) = None)
   \<and> (failed r \<longrightarrow>
        formData (form_settle r s) = formData s
        \<and> selectedPlan (form_settle r s) = selectedPlan s)"
  by (cases r)
     (simp_all add: handleFormSubmit_def form_settle_def form_then_def form_catch_def
        form_finally_def failed_def empty_form_def)

theorem C10_form_cleared_only_on_success_witness:
  "response_ok 204 \<and> failed (Http 404) \<and> failed TransportError
   \<and> formData (form_settle (Http 204) (handleFormSubmit form_example)) =
       \<lparr>name = '''', email = '''', mobile = '''', plan = ''''\<rparr>
   \<and> selectedPlan (form_settle (Http 204) (handleFormSubmit form_example)) = None
   \<and> email (formData (form_settle (Http 404) (handleFormSubmit form_example))) = ''ann@example.org''
   \<and> selectedPlan (form_settle TransportError (handleFormSubmit form_example))
       = Some \<lparr>plan_name = ''Pro''\<rparr>"
  using C10_form_cleared_only_on_success [of "handleFormSubmit form_example" 204 "Http 404"]
    C10_form_cleared_only_on_success [of "handleFormSubmit form_example" 204 TransportError]
    C10_form_cleared_only_on_success [of form_example 204 TransportError]
  by (simp add: response_ok_def failed_def form_example_def)

text \<open>
  Claim C9. When the email field is the empty string, \<^verbatim>\<open>handleContactUs\<close> makes one call
  only, \<^verbatim>\<open>setStatus\<close> with the prompt: it issues no request, it never calls
  \<^verbatim>\<open>setIsLoading\<close>, and \<^verbatim>\<open>isLoading\<close> and the email are what they were.
\<close>

theorem C9_empty_email_returns_early:
  assumes "h_email s = ''''"
  shows "h_calls (handleContactUs s) = h_calls s @ [SetStatus ''Please enter your email address.'']
         \<and> h_status (handleContactUs s) = ''Please enter your email address.''
         \<and> h_isLoading (handleContactUs s) = h_isLoading s
         \<and> h_email (handleContactUs s) = h_email s"
  using assms by (simp add: handleContactUs_def setStatus_def)

theorem C9_empty_email_returns_early_witness:
  "h_email \<lparr>h_email = '''', h_status = '''', h_isLoading = False, h_calls = []\<rparr> = ''''
   \<and> h_calls (handleContactUs \<lparr>h_email = '''', h_status = '''', h_isLoading = False, h_calls = []\<rparr>)
       = [SetStatus ''Please enter your email address.'']
   \<and> \<not> h_isLoading (handleContactUs \<lparr>h_email = '''', h_status = '''', h_isLoading = False, h_calls = []\<rparr>)"
  using C9_empty_email_returns_early
    [of "\<lparr>h_email = '''', h_status = '''', h_isLoading = False, h_calls = []\<rparr>"]
  by simp

section \<open>Theorems: chat playback\<close>

subsection \<open>Time passing\<close>

lemma due_timers_run_callback [simp]: "due_timers (run_callback f s) = due_timers s"
  by (cases f)
     (simp_all add: run_callback_def settle_callback_def startChatAnimation_def
        showNextMessage_def revealAi_def revealCustomer_def setTimeout_def
        setTypingIndex_def setVisibleMessages_empty_def setVisibleMessages_append_def
        increment_index_def record_call_def due_timers_def Let_def)

lemma fire_due_idle: "due_timers s = [] \<Longrightarrow> fire_due s = s"
  by (subst fire_due.simps) simp

lemma tick_idle: "\<forall>t\<in>set (timers s). Suc (now s) < due t \<Longrightarrow> tick s = s\<lparr>now := Suc (now s)\<rparr>"
  unfolding tick_def
  by (rule fire_due_idle) (auto simp: due_timers_def filter_empty_conv)

lemma elapse_skip:
  "\<forall>t\<in>set (timers s). now s + k < due t \<Longrightarrow> elapse (k + d) s = elapse d (s\<lparr>now := now s + k\<rparr>)"
proof (induction k arbitrary: s)
  case 0
  then show ?case by simp
next
  case (Suc k)
  have t: "tick s = s\<lparr>now := Suc (now s)\<rparr>"
    using Suc.prems by (intro tick_idle) auto
  have "elapse (k + d) (s\<lparr>now := Suc (now s)\<rparr>) = elapse d (s\<lparr>now := Suc (now s)\<rparr>\<lparr>now := now (s\<lparr>now := Suc (now s)\<rparr>) + k\<rparr>)"
    using Suc.prems by (intro Suc.IH) auto
  then show ?case using t by simp
qed

lemma elapse_add: "elapse (a + b) s = elapse b (elapse a s)"
  by (induction a arbitrary: s) simp_all


lemma fire_due_single:
  assumes "timers s = [t]" and "due t \<le> now s"
  shows "fire_due s = run_callback (cb t) (s\<lparr>timers := []\<rparr>)"
proof -
  have "due_timers (run_callback (cb t) (s\<lparr>timers := []\<rparr>)) = due_timers (s\<lparr>timers := []\<rparr>)"
    by simp
  then have "due_timers (run_callback (cb t) (s\<lparr>timers := []\<rparr>)) = []"
    by (simp add: due_timers_def)
  then have "fire_due (run_callback (cb t) (s\<lparr>timers := []\<rparr>)) = run_callback (cb t) (s\<lparr>timers := []\<rparr>)"
    by (rule fire_due_idle)
  then show ?thesis
    using assms by (subst fire_due.simps) (simp add: due_timers_def)
qed

lemma wait_fire:
  assumes "timers s = [t]" and "now s < due t"
  shows "elapse (due t - now s + d) s = elapse d (run_callback (cb t) (s\<lparr>now := due t, timers := []\<rparr>))"
proof -
  define k where "k = due t - Suc (now s)"
  have k: "due t = now s + Suc k"
    using assms(2) by (simp add: k_def)
  have 1: "elapse (k + (Suc d)) s = elapse (Suc d) (s\<lparr>now := now s + k\<rparr>)"
    using assms(1) k by (intro elapse_skip) simp
  have "fire_due (s\<lparr>now := due t\<rparr>) = run_callback (cb t) (s\<lparr>now := due t\<rparr>\<lparr>timers := []\<rparr>)"
    using assms(1) by (intro fire_due_single) simp_all
  then have 2: "tick (s\<lparr>now := now s + k\<rparr>) = run_callback (cb t) (s\<lparr>now := due t, timers := []\<rparr>)"
    by (simp add: tick_def k)
  have 3: "due t - now s + d = k + Suc d"
    using k by simp
  have "elapse (due t - now s + d) s = elapse (k + Suc d) s"
    by (simp only: 3)
  also have "\<dots> = elapse (Suc d) (s\<lparr>now := now s + k\<rparr>)"
    by (rule 1)
  also have "\<dots> = elapse d (tick (s\<lparr>now := now s + k\<rparr>))"
    by (simp only: elapse.simps)
  finally show ?thesis
    by (simp only: 2)
qed







subsection \<open>A whole run\<close>

lemmas playback_defs =
  run_callback_def settle_callback_def startChatAnimation_def showNextMessage_def
  revealAi_def revealCustomer_def setTimeout_def setTypingIndex_def
  setVisibleMessages_empty_def setVisibleMessages_append_def increment_index_def
  record_call_def Let_def



lemma seen_at_mount:
  "intersect [True] (mount S t0) =
     \<lparr>script = S, visibleMessages = [], typingIndex = - 1, hasBeenVisibleRef = True,
      entry = Some True, observing = True, mounted = True, effect_timeout = Some 0,
      timers = [\<lparr>tid = 0, due = t0 + 1000, cb = Settle\<rparr>], next_id = Suc 0,
      anims = (\<lambda>_. \<lparr>index = 0, isCancelled = False\<rparr>),
      next_anim = 0, now = t0, calls = []\<rparr>"
  by (simp add: intersect_def mount_def comparisonVisible_def effect_cleanup_def
      clearTimeout_def visibility_effect_def setTimeout_def)

lemma settle_fires:
  "elapse (1000 + d) (intersect [True] (mount S t0)) = elapse d (activated S t0)"
proof -
  have t: "timers (intersect [True] (mount S t0)) = [\<lparr>tid = 0, due = t0 + 1000, cb = Settle\<rparr>]"
    and n: "now (intersect [True] (mount S t0)) = t0"
    unfolding seen_at_mount by (simp_all add: mount_def)
  show ?thesis
    using wait_fire [OF t, of d] by (simp add: n activated_def)
qed

lemma activated_fields:
  "calls (activated S t0) =
     [(t0 + 1000, ResetVisibleMessages), (t0 + 1000, SetTypingIndex (- 1)),
      (t0 + 1000, StartChatAnimation)]"
  "visibleMessages (activated S t0) = []"
  "script (activated S t0) = S"
  "now (activated S t0) = t0 + 1000"
  "awaiting 0 0 (t0 + 1000 + 300) (activated S t0)"
  unfolding activated_def seen_at_mount
  by (simp_all add: mount_def awaiting_def playback_defs)











subsection \<open>The states of a run\<close>


lemma activations_now [simp]: "activations (s\<lparr>now := n\<rparr>) = activations s"
  by (simp add: activations_def)







lemma activated_timers:
  "timers (activated S t0) = [\<lparr>tid = 1, due = t0 + 1300, cb = ShowNextMessage 0\<rparr>]"
  "typingIndex (activated S t0) = - 1"
  unfolding activated_def seen_at_mount
  by (simp_all add: mount_def playback_defs)

lemma gap_before_first:
  assumes "d < 300"
  shows "elapse (1000 + d) (intersect [True] (mount S t0)) = (activated S t0)\<lparr>now := t0 + 1000 + d\<rparr>"
proof -
  have "elapse (d + 0) (activated S t0) = elapse 0 ((activated S t0)\<lparr>now := now (activated S t0) + d\<rparr>)"
    using assms by (intro elapse_skip) (simp add: activated_timers activated_fields)
  then show ?thesis
    by (simp add: settle_fires activated_fields)
qed

subsection \<open>Activations and changes of visibility\<close>

lemma run_callback_frame:
  "entry (run_callback f s) = entry s"
  "observing (run_callback f s) = observing s"
  "hasBeenVisibleRef (run_callback f s) = hasBeenVisibleRef s"
  "effect_timeout (run_callback f s) = effect_timeout s"
  "mounted (run_callback f s) = mounted s"
  "script (run_callback f s) = script s"
  by (cases f, simp_all add: playback_defs)+

lemma fire_due_frame:
  "entry (fire_due s) = entry s \<and> observing (fire_due s) = observing s
   \<and> hasBeenVisibleRef (fire_due s) = hasBeenVisibleRef s
   \<and> effect_timeout (fire_due s) = effect_timeout s
   \<and> mounted (fire_due s) = mounted s \<and> script (fire_due s) = script s"
proof (induction s rule: fire_due.induct)
  case (1 s)
  show ?case
  proof (cases "due_timers s")
    case Nil
    then show ?thesis by (simp add: fire_due_idle)
  next
    case (Cons t ts)
    then have "fire_due s = fire_due (run_callback (cb t) (s\<lparr>timers := remove1 t (timers s)\<rparr>))"
      by (subst fire_due.simps) simp
    then show ?thesis
      using "1.IH" [OF Cons] by (simp add: run_callback_frame)
  qed
qed








lemma comparisonVisible_clearTimeout [simp]:
  "comparisonVisible (clearTimeout h s) = comparisonVisible s"
  "hasBeenVisibleRef (clearTimeout h s) = hasBeenVisibleRef s"
  by (cases h, simp_all add: clearTimeout_def comparisonVisible_def)+


lemma visibility_effect_visible [simp]:
  "comparisonVisible (visibility_effect s) = comparisonVisible s"
  by (simp add: visibility_effect_def setTimeout_def comparisonVisible_def)



lemma tick_visible [simp]: "comparisonVisible (tick s) = comparisonVisible s"
  using fire_due_frame [of "s\<lparr>now := Suc (now s)\<rparr>"]
  by (simp add: tick_def comparisonVisible_def)




lemma run_callback_now [simp]: "now (run_callback f s) = now s"
  by (cases f) (simp_all add: playback_defs)

lemma fire_due_now [simp]: "now (fire_due s) = now s"
proof (induction s rule: fire_due.induct)
  case (1 s)
  show ?case
  proof (cases "due_timers s")
    case Nil
    then show ?thesis by (simp add: fire_due_idle)
  next
    case (Cons t ts)
    then have "fire_due s = fire_due (run_callback (cb t) (s\<lparr>timers := remove1 t (timers s)\<rparr>))"
      by (subst fire_due.simps) simp
    then show ?thesis using "1.IH" [OF Cons] by simp
  qed
qed





































subsection \<open>The playback state on every sequence of events\<close>

























section \<open>Theorems: visibility trigger\<close>

lemma watch_step_visible: "w_isVisible w \<Longrightarrow> w_isVisible (watch_step e w)"
proof -
  have "w_isVisible w \<Longrightarrow> w_isVisible (observer_callback entries w)" for entries
    unfolding observer_callback_def
    by (induction entries arbitrary: w) simp_all
  then show "w_isVisible w \<Longrightarrow> w_isVisible (watch_step e w)"
    by (cases e) (simp_all add: watch_step_def)
qed

lemma rises_visible_trace:
  "rises (b # visible_trace es w) = (if \<not> b \<and> w_isVisible w then 1 else 0) + rises (visible_trace es w)"
  "falls (b # visible_trace es w) = (if b \<and> \<not> w_isVisible w then 1 else 0) + falls (visible_trace es w)"
  by (cases es; simp)+

lemma visible_stays:
  "w_isVisible w \<Longrightarrow> rises (visible_trace es w) = 0 \<and> falls (visible_trace es w) = 0"
proof (induction es arbitrary: w)
  case Nil
  show ?case by simp
next
  case (Cons e es)
  from Cons.IH [OF watch_step_visible [OF Cons.prems, of e]] Cons.prems
    watch_step_visible [OF Cons.prems, of e]
  show ?case
    by (simp add: rises_visible_trace)
qed

text \<open>
  Claim C3, as amended: the top-level hook of \<^verbatim>\<open>src/App.js\<close>. From any state of an instance
  and over any sequence of events (reports of entries, renders with another options
  object, unmount), the value \<^verbatim>\<open>isVisible\<close> it returns never goes from true to false and
  goes from false to true at most once.
\<close>

theorem C3_top_level_hook:
  "falls (visible_trace es w) = 0 \<and> rises (visible_trace es w) \<le> 1"
proof (induction es arbitrary: w)
  case Nil
  show ?case by simp
next
  case (Cons e es)
  show ?case
  proof (cases "w_isVisible w")
    case True
    from visible_stays [OF True, of "e # es"] show ?thesis by simp
  next
    case False
    show ?thesis
    proof (cases "w_isVisible (watch_step e w)")
      case True
      from visible_stays [OF True, of es] False True show ?thesis
        by (simp add: rises_visible_trace)
    next
      case stay: False
      from Cons.IH [of "watch_step e w"] False stay show ?thesis
        by (simp add: rises_visible_trace)
    qed
  qed
qed

text \<open>
  Claim C3 as stated fails for the hook nested in \<^verbatim>\<open>ComparisonSection\<close>, which returns the
  \<^verbatim>\<open>isIntersecting\<close> of the latest entry: after a report of intersecting the value is
  true, after a report of not intersecting it is false again.
\<close>

theorem C3_counterexample:
  "comparisonVisible (intersect [True] (mount messages 0))
   \<and> \<not> comparisonVisible (intersect [False] (intersect [True] (mount messages 0)))"
  unfolding seen_at_mount
  by (simp add: intersect_def comparisonVisible_def effect_cleanup_def
      clearTimeout_def visibility_effect_def)

text \<open>A trace of the top-level hook: the section enters, leaves, the options change, and
  the value stays true.\<close>

theorem C3_top_level_hook_witness:
  "visible_trace [Entries [False], Entries [False, True], Entries [False], Options_changed, Entries [False]]
     (watcher_mount True) = [False, False, True, True, True, True]
   \<and> falls (visible_trace [Entries [False], Entries [False, True], Entries [False], Options_changed, Entries [False]]
        (watcher_mount True)) = 0
   \<and> rises (visible_trace [Entries [False], Entries [False, True], Entries [False], Options_changed, Entries [False]]
        (watcher_mount True)) = 1"
  using C3_top_level_hook [of "[Entries [False], Entries [False, True], Entries [False], Options_changed, Entries [False]]" "watcher_mount True"]
  by (simp add: watcher_mount_def watch_step_def observer_callback_def)

section \<open>Theorems: unmounting during playback\<close>

lemma unmount_mid_gap:
  assumes "d < 300"
  shows "unmount (elapse (1000 + d) (intersect [True] (mount S t0)))
           = (activated S t0)\<lparr>now := t0 + 1000 + d, mounted := False, observing := False\<rparr>"
proof -
  have m: "mounted (activated S t0)" and e: "effect_timeout (activated S t0) = Some 0"
    unfolding activated_def seen_at_mount by (simp_all add: playback_defs)
  show ?thesis
    unfolding gap_before_first [OF assms]
    using m e by (simp add: unmount_def effect_cleanup_def clearTimeout_def activated_timers)
qed

text \<open>
  Claim C2 does not hold of the code. The instance is seen at time 0, the sequencer is
  activated at 1000 ms, and the host unmounts at 1200 ms. The cleanup of the effect
  clears only the settle timer, which has fired: the timer of \<^verbatim>\<open>showNextMessage\<close> stays
  pending, fires at 1300 ms and calls \<^verbatim>\<open>setTypingIndex\<close>, and the reveal callback it sets
  fires at 2000 ms and calls \<^verbatim>\<open>setVisibleMessages\<close> and \<^verbatim>\<open>setTypingIndex\<close>, then sets the
  next timer. The function that \<^verbatim>\<open>startChatAnimation\<close> returns would have left no timer
  pending, but the effect drops it.
\<close>

theorem C2_unmount_mid_sequence:
  "timers (unmount (elapse (1000 + 200) (intersect [True] (mount messages 0))))
     = [\<lparr>tid = 1, due = 1300, cb = ShowNextMessage 0\<rparr>]
   \<and> calls (elapse (100 + 700) (unmount (elapse (1000 + 200) (intersect [True] (mount messages 0)))))
     = calls (unmount (elapse (1000 + 200) (intersect [True] (mount messages 0))))
       @ [(1300, EnterShowNextMessage 0), (1300, SetTypingIndex 0),
          (2000, AppendVisibleMessage (hd messages)),
          (2000, SetTypingIndex (- 1))]
   \<and> timers (elapse (100 + 700) (unmount (elapse (1000 + 200) (intersect [True] (mount messages 0)))))
     = [\<lparr>tid = 3, due = 2700, cb = ShowNextMessage 0\<rparr>]
   \<and> timers (cancelChatAnimation 0 1
        (unmount (elapse (1000 + 200) (intersect [True] (mount messages 0))))) = []"
proof -
  define u where "u = unmount (elapse (1000 + 200) (intersect [True] (mount messages 0)))"
  have "(200::nat) < 300" by simp
  from unmount_mid_gap [OF this, of messages 0]
  have u: "u = (activated messages 0)\<lparr>now := 1200, mounted := False, observing := False\<rparr>"
    by (simp add: u_def)
  have a: "anims (activated messages 0) 0 = \<lparr>index = 0, isCancelled = False\<rparr>"
    using activated_fields(5) [of 0 messages] by (simp add: awaiting_def)
  have tu: "timers u = [\<lparr>tid = 1, due = 1300, cb = ShowNextMessage 0\<rparr>]" and nu: "now u = 1200"
    by (simp_all add: u activated_timers)
  define s1 where "s1 = run_callback (ShowNextMessage 0) (u\<lparr>now := 1300, timers := []\<rparr>)"
  have "elapse (due \<lparr>tid = 1, due = 1300, cb = ShowNextMessage 0\<rparr> - now u + 700) u
          = elapse 700 (run_callback (cb \<lparr>tid = 1, due = 1300, cb = ShowNextMessage 0\<rparr>)
              (u\<lparr>now := due \<lparr>tid = 1, due = 1300, cb = ShowNextMessage 0\<rparr>, timers := []\<rparr>))"
    using tu nu by (intro wait_fire) simp_all
  then have e1: "elapse (100 + 700) u = elapse 700 s1"
    by (simp add: nu s1_def)
  have n0: "next_id (activated messages 0) = 2"
    unfolding activated_def seen_at_mount by (simp add: playback_defs)
  have t1: "timers s1 = [\<lparr>tid = 2, due = 2000, cb = RevealAi 0 (hd messages)\<rparr>]"
    and n1: "now s1 = 1300" and a1: "anims s1 0 = \<lparr>index = 0, isCancelled = False\<rparr>"
    and c1: "calls s1 = calls u @ [(1300, EnterShowNextMessage 0), (1300, SetTypingIndex 0)]"
    and i1: "next_id s1 = 3"
    using a n0
    by (simp_all add: s1_def u playback_defs activated_fields messages_def)
  have "elapse (due \<lparr>tid = 2, due = 2000, cb = RevealAi 0 (hd messages)\<rparr> - now s1 + 0) s1
          = elapse 0 (run_callback (cb \<lparr>tid = 2, due = 2000, cb = RevealAi 0 (hd messages)\<rparr>)
              (s1\<lparr>now := due \<lparr>tid = 2, due = 2000, cb = RevealAi 0 (hd messages)\<rparr>, timers := []\<rparr>))"
    using t1 n1 by (intro wait_fire) simp_all
  then have e2: "elapse 700 s1 = revealAi 0 (hd messages) (s1\<lparr>now := 2000, timers := []\<rparr>)"
    by (simp add: n1 run_callback_def)
  have r: "calls (elapse (100 + 700) u)
             = calls u @ [(1300, EnterShowNextMessage 0), (1300, SetTypingIndex 0),
                 (2000, AppendVisibleMessage (hd messages)),
                 (2000, SetTypingIndex (- 1))]"
    and t: "timers (elapse (100 + 700) u) = [\<lparr>tid = 3, due = 2700, cb = ShowNextMessage 0\<rparr>]"
    unfolding e1 e2 using a1 c1 i1
    by (simp_all add: revealAi_def setTimeout_def increment_index_def setTypingIndex_def
        setVisibleMessages_append_def record_call_def)
  have k: "timers (cancelChatAnimation 0 1 u) = []"
    by (simp add: cancelChatAnimation_def clearTimeout_def tu)
  show ?thesis
    using tu r t k unfolding u_def by simp
qed

end
